theory Spec2Isabelle
  imports Complex_Main
begin

section \<open>The MQTT test harness \<open>utils/mqtt_test.py\<close>\<close>

text \<open>
  Python strings are modelled as \<open>string\<close> (lists of characters) over ASCII, JSON integers
  as \<open>int\<close>, and the floating-point seconds of \<open>time.time()\<close> and of the schedule
  intervals as exact rationals.  The messages printed for the operator are a datatype, one
  constructor per \<open>print\<close> call with text of its own.
\<close>

subsection \<open>Python string built-ins\<close>

text \<open>\<open>str.lower()\<close>: the letters \<open>A\<close> to \<open>Z\<close> go to \<open>a\<close> to \<open>z\<close>, all else stays.\<close>

definition lower_char :: "char \<Rightarrow> char" where
  "lower_char c =
     (case map_of (zip ''ABCDEFGHIJKLMNOPQRSTUVWXYZ'' ''abcdefghijklmnopqrstuvwxyz'') c of
        Some d \<Rightarrow> d
      | None \<Rightarrow> c)"

definition lower :: "string \<Rightarrow> string" where
  "lower s = map lower_char s"

text \<open>
  The characters for which \<open>str.isspace()\<close> holds, within ASCII: tab, line feed, vertical
  tab, form feed, carriage return, the four separators \<open>0x1C\<close> to \<open>0x1F\<close>, and the space.
\<close>

definition is_space :: "char \<Rightarrow> bool" where
  "is_space c = (of_char c \<in> set [9, 10, 11, 12, 13, 28, 29, 30, 31, 32 :: nat])"

text \<open>\<open>str.strip()\<close> with no argument.\<close>

definition strip :: "string \<Rightarrow> string" where
  "strip s = rev (dropWhile is_space (rev (dropWhile is_space s)))"

text \<open>
  \<open>str.split()\<close> with no argument: the maximal runs of characters that are not white
  space, in order.  \<open>cur\<close> is the run being read.
\<close>

fun split_from :: "string \<Rightarrow> string \<Rightarrow> string list" where
  "split_from cur [] = (if cur = [] then [] else [cur])"
| "split_from cur (c # cs) =
     (if is_space c then (if cur = [] then split_from [] cs else cur # split_from [] cs)
      else split_from (cur @ [c]) cs)"

definition split :: "string \<Rightarrow> string list" where
  "split s = split_from [] s"

subsection \<open>Topic Router\<close>

definition mode_map :: "(string \<times> string) list" where
  "mode_map =
     [(''DS18B20'', ''ds18b20''),
      (''THERMOCOUPLE'', ''thermocouple''),
      (''FAN'', ''fan''),
      (''OUTPUT_DIGITAL'', ''digital_output''),
      (''PWM'', ''pwm''),
      (''INPUT_DIGITAL'', ''digital_input''),
      (''INPUT_ANALOG'', ''analog_input''),
      (''OUTPUT_ANALOG'', ''analog_output''),
      (''DHT22_SENSOR'', ''dht22''),
      (''YL_69_SENSOR'', ''yl69'')]"

text \<open>\<open>mode_map.get(mode, mode.lower())\<close>.\<close>

definition get_topic_prefix :: "string \<Rightarrow> string" where
  "get_topic_prefix mode =
     (case map_of mode_map mode of Some prefix \<Rightarrow> prefix | None \<Rightarrow> lower mode)"

text \<open>The f-string \<open>/{client_id}/{prefix}/{name}/<suffix>\<close> that every caller builds.\<close>

definition compose_topic :: "string \<Rightarrow> string \<Rightarrow> string \<Rightarrow> string \<Rightarrow> string" where
  "compose_topic client_id prefix name suffix =
     ''/'' @ client_id @ ''/'' @ prefix @ ''/'' @ name @ ''/'' @ suffix"

definition pin_topic :: "string \<Rightarrow> string \<Rightarrow> string \<Rightarrow> string \<Rightarrow> string" where
  "pin_topic client_id mode name suffix =
     compose_topic client_id (get_topic_prefix mode) name suffix"

subsection \<open>Shared Actuator Store\<close>

text \<open>
  The dictionary \<open>actuator_values\<close>.  Each access of the source holds \<open>actuator_lock\<close>, so
  a read or a write is one step of the model.
\<close>

type_synonym store = "string \<rightharpoonup> string"

text \<open>\<open>actuator_values[topic] = value\<close>.\<close>

definition store_set :: "store \<Rightarrow> string \<Rightarrow> string \<Rightarrow> store" where
  "store_set st topic v = st(topic \<mapsto> v)"

text \<open>\<open>actuator_values.get(topic, "0")\<close>.\<close>

definition store_get :: "store \<Rightarrow> string \<Rightarrow> string" where
  "store_get st topic = (case st topic of Some v \<Rightarrow> v | None \<Rightarrow> ''0'')"

text \<open>A sequence of writes, applied in order, starting from a given store.\<close>

fun store_writes :: "store \<Rightarrow> (string \<times> string) list \<Rightarrow> store" where
  "store_writes st [] = st"
| "store_writes st ((topic, v) # ws) = store_writes (store_set st topic v) ws"

subsection \<open>Python number built-ins\<close>

text \<open>\<open>str(n)\<close> of an integer: its decimal digits, after a minus sign when negative.\<close>

definition digit_char :: "nat \<Rightarrow> char" where
  "digit_char d = ''0123456789'' ! d"

fun str_nat :: "nat \<Rightarrow> string" where
  "str_nat n = (if n < 10 then [digit_char n] else str_nat (n div 10) @ [digit_char (n mod 10)])"

declare str_nat.simps [simp del]

definition str_int :: "int \<Rightarrow> string" where
  "str_int i = (if i < 0 then CHR ''-'' # str_nat (nat (- i)) else str_nat (nat i))"

text \<open>
  \<open>int(s)\<close> of a string: white space around it is dropped, one sign may lead, and the rest
  is decimal digits, single underscores allowed between two digits.  \<open>None\<close> is the
  \<open>ValueError\<close> of the source.
\<close>

definition is_digit :: "char \<Rightarrow> bool" where
  "is_digit c = (c \<in> set ''0123456789'')"

definition digit_val :: "char \<Rightarrow> nat" where
  "digit_val c = of_char c - 48"

fun after_digit :: "string \<Rightarrow> bool" where
  "after_digit [] = True"
| "after_digit [c] = is_digit c"
| "after_digit (c # d # cs) =
     (if c = CHR ''_'' then is_digit d \<and> after_digit cs else is_digit c \<and> after_digit (d # cs))"

definition digits_ok :: "string \<Rightarrow> bool" where
  "digits_ok s = (case s of [] \<Rightarrow> False | c # cs \<Rightarrow> is_digit c \<and> after_digit cs)"

definition digits_value :: "string \<Rightarrow> nat" where
  "digits_value s = foldl (\<lambda>acc c. 10 * acc + digit_val c) 0 (filter (\<lambda>c. c \<noteq> CHR ''_'') s)"

definition py_int :: "string \<Rightarrow> int option" where
  "py_int s =
     (let t = strip s;
          (sgn, body) =
            (case t of
               [] \<Rightarrow> (1, [])
             | c # cs \<Rightarrow>
                 if c = CHR ''-'' then (- 1, cs) else if c = CHR ''+'' then (1, cs) else (1, t))
      in if digits_ok body then Some (sgn * int (digits_value body)) else None)"

subsection \<open>Pin declarations and protocol effects\<close>

text \<open>
  One entry of \<open>pin_config.json\<close>.  \<open>mode\<close> and \<open>name\<close> are read with \<open>pin[...]\<close> and are
  strings; \<open>defaultState\<close> and \<open>pollingInterval\<close> are read with \<open>pin.get\<close>, so \<open>None\<close> is
  a missing key, and are integers when present.
\<close>

record pin =
  mode :: string
  name :: string
  defaultState :: "int option"
  pollingInterval :: "int option"

text \<open>What the harness prints for the operator.\<close>

datatype message =
    MsgConnected
  | MsgSubscribed string
  | MsgConnectionFailed int
  | MsgManualPublish string string
  | MsgInvalidIndex
  | MsgUsage

text \<open>
  The calls the harness makes, in the order it makes them: \<open>client.subscribe\<close>,
  \<open>client.publish\<close>, an assignment to \<open>actuator_values\<close>, and \<open>print\<close>.
\<close>

datatype effect =
    Subscribe string
  | Publish string string
  | StoreWrite string string
  | Print message

subsection \<open>Connection/Subscription Controller\<close>

text \<open>The loop over \<open>userdata["pins"]\<close> in \<open>on_connect\<close>.\<close>

fun subscribe_pins :: "string \<Rightarrow> pin list \<Rightarrow> effect list" where
  "subscribe_pins client_id [] = []"
| "subscribe_pins client_id (p # ps) =
     (let prefix = get_topic_prefix (mode p) in
      if mode p \<in> set [''DS18B20'', ''THERMOCOUPLE''] then
        (let topic = compose_topic client_id prefix (name p) ''value''
         in Subscribe topic # Print (MsgSubscribed topic) # subscribe_pins client_id ps)
      else if mode p = ''FAN'' then
        (let topic = compose_topic client_id prefix (name p) ''state''
         in Subscribe topic # Print (MsgSubscribed topic) # subscribe_pins client_id ps)
      else if mode p = ''OUTPUT_DIGITAL'' then
        (let topic = compose_topic client_id prefix (name p) ''state''
         in Subscribe topic # Print (MsgSubscribed topic) # subscribe_pins client_id ps)
      else subscribe_pins client_id ps)"

definition on_connect :: "string \<Rightarrow> pin list \<Rightarrow> int \<Rightarrow> effect list" where
  "on_connect client_id pins rc =
     (if rc = 0 then Print MsgConnected # subscribe_pins client_id pins
      else [Print (MsgConnectionFailed rc)])"

subsection \<open>Auto-Publisher Loop\<close>

record actuator =
  topic :: string
  interval :: rat
  last_sent :: rat

text \<open>
  The first loop of \<open>auto_publisher\<close>: it seeds the store and appends one schedule entry
  for each pin whose mode is \<open>FAN\<close> or \<open>OUTPUT_DIGITAL\<close>.
\<close>

fun auto_publisher_init ::
  "string \<Rightarrow> pin list \<Rightarrow> store \<times> actuator list \<Rightarrow> store \<times> actuator list" where
  "auto_publisher_init client_id [] (st, actuators) = (st, actuators)"
| "auto_publisher_init client_id (p # ps) (st, actuators) =
     (if mode p \<in> set [''FAN'', ''OUTPUT_DIGITAL''] then
        (let prefix = get_topic_prefix (mode p);
             tp = compose_topic client_id prefix (name p) ''set'';
             default_val = (case defaultState p of Some d \<Rightarrow> d | None \<Rightarrow> 0);
             st' = store_set st tp (str_int default_val);
             interval_ms = (case pollingInterval p of Some ms \<Rightarrow> ms | None \<Rightarrow> 30000);
             interval_sec = max 1 (of_int interval_ms / 1000 - 1)
         in auto_publisher_init client_id ps
              (st', actuators @ [\<lparr>topic = tp, interval = interval_sec, last_sent = 0\<rparr>]))
      else auto_publisher_init client_id ps (st, actuators))"

text \<open>
  One pass of the \<open>for act in actuators\<close> loop at clock reading \<open>now\<close>: the updated
  entries and the \<open>(topic, value)\<close> pairs handed to \<open>client.publish\<close>, in order.
\<close>

fun scheduling_pass ::
  "rat \<Rightarrow> store \<Rightarrow> actuator list \<Rightarrow> actuator list \<times> (string \<times> string) list" where
  "scheduling_pass now st [] = ([], [])"
| "scheduling_pass now st (act # acts) =
     (let (acts', pubs) = scheduling_pass now st acts in
      if now - last_sent act \<ge> interval act
      then (act\<lparr>last_sent := now\<rparr> # acts', (topic act, store_get st (topic act)) # pubs)
      else (act # acts', pubs))"

subsection \<open>Manual Override Channel\<close>

record manual_actuator =
  man_name :: string
  man_topic :: string
  man_range :: string

text \<open>The loop of \<open>main\<close> that builds \<open>actuators_manual\<close>.\<close>

fun build_actuators_manual :: "string \<Rightarrow> pin list \<Rightarrow> manual_actuator list" where
  "build_actuators_manual client_id [] = []"
| "build_actuators_manual client_id (p # ps) =
     (let prefix = get_topic_prefix (mode p) in
      if mode p = ''FAN'' then
        \<lparr>man_name = name p, man_topic = compose_topic client_id prefix (name p) ''set'',
         man_range = ''0-4''\<rparr> # build_actuators_manual client_id ps
      else if mode p = ''OUTPUT_DIGITAL'' then
        \<lparr>man_name = name p, man_topic = compose_topic client_id prefix (name p) ''set'',
         man_range = ''0-1''\<rparr> # build_actuators_manual client_id ps
      else build_actuators_manual client_id ps)"

text \<open>
  What \<open>client.publish\<close> does is the client library's business: it returns (whatever the
  delivery status, which the source drops), raises \<open>ValueError\<close>, or raises something else.
\<close>

datatype publish_outcome = Returns | RaisesValueError | RaisesOther

text \<open>
  After one line of input the command loop goes on, ends on \<open>q\<close>, or is left by an
  exception that \<open>main\<close> does not catch.
\<close>

datatype loop_status = Continue | Quit | Crash

text \<open>
  One iteration of the \<open>while True\<close> loop of \<open>main\<close> on the line that \<open>input\<close> returned:
  the store afterwards, the effects in order, and how the loop goes on.
\<close>

definition handle_command ::
  "manual_actuator list \<Rightarrow> publish_outcome \<Rightarrow> store \<Rightarrow> string
     \<Rightarrow> store \<times> effect list \<times> loop_status" where
  "handle_command actuators_manual pub st line =
     (let cmd = strip line in
      if lower cmd = ''q'' then (st, [], Quit)
      else
        (let parts = split cmd in
         if length parts = 2 then
           (case py_int (parts ! 0) of
              None \<Rightarrow> (st, [Print MsgUsage], Continue)
            | Some idx \<Rightarrow>
                (let v = parts ! 1 in
                 if 0 \<le> idx \<and> idx < int (length actuators_manual) then
                   (let tp = man_topic (actuators_manual ! nat idx);
                        st' = store_set st tp v
                    in case pub of
                         Returns \<Rightarrow>
                           (st', [StoreWrite tp v, Publish tp v, Print (MsgManualPublish tp v)],
                            Continue)
                       | RaisesValueError \<Rightarrow>
                           (st', [StoreWrite tp v, Publish tp v, Print MsgUsage], Continue)
                       | RaisesOther \<Rightarrow> (st', [StoreWrite tp v, Publish tp v], Crash))
                 else (st, [Print MsgInvalidIndex], Continue)))
         else (st, [], Continue)))"

subsection \<open>The session\<close>

text \<open>
  What happens to the running harness, one step at a time: the publisher thread makes a
  scheduling pass at a clock reading, or the operator enters a line (with what
  \<open>client.publish\<close> would do for it).  The lock makes every store access one step, and a
  pass is taken as one step too.
\<close>

datatype input = Tick rat | Line string publish_outcome

text \<open>
  The effects of a run from a store and a schedule.  After \<open>q\<close> the stop event is set and
  the publisher thread is joined; after an uncaught exception the process ends.
\<close>

fun run ::
  "manual_actuator list \<Rightarrow> store \<times> actuator list \<Rightarrow> input list \<Rightarrow> effect list" where
  "run actuators_manual (st, acts) [] = []"
| "run actuators_manual (st, acts) (Tick now # ins) =
     (let (acts', pubs) = scheduling_pass now st acts
      in map (\<lambda>(tp, v). Publish tp v) pubs @ run actuators_manual (st, acts') ins)"
| "run actuators_manual (st, acts) (Line line pub # ins) =
     (case handle_command actuators_manual pub st line of
        (st', effs, Continue) \<Rightarrow> effs @ run actuators_manual (st', acts) ins
      | (st', effs, _) \<Rightarrow> effs)"


subsection \<open>Vocabulary of the properties\<close>

text \<open>
  The pins for which \<open>auto_publisher\<close> makes a schedule entry and \<open>main\<close> a manual-control
  entry: the test \<open>mode in ["FAN", "OUTPUT_DIGITAL"]\<close>.
\<close>

definition actuator_capable :: "pin \<Rightarrow> bool" where
  "actuator_capable p = (mode p \<in> set [''FAN'', ''OUTPUT_DIGITAL''])"

text \<open>The \<open>set\<close> topic of a pin, the seed of its store entry and its schedule entry.\<close>

definition set_topic :: "string \<Rightarrow> pin \<Rightarrow> string" where
  "set_topic client_id p = pin_topic client_id (mode p) (name p) ''set''"

definition seed_of :: "pin \<Rightarrow> string" where
  "seed_of p = str_int (case defaultState p of Some d \<Rightarrow> d | None \<Rightarrow> 0)"

definition interval_of :: "pin \<Rightarrow> rat" where
  "interval_of p =
     max 1 (of_int (case pollingInterval p of Some ms \<Rightarrow> ms | None \<Rightarrow> 30000) / 1000 - 1)"

definition schedule_entry :: "string \<Rightarrow> pin \<Rightarrow> actuator" where
  "schedule_entry client_id p =
     \<lparr>topic = set_topic client_id p, interval = interval_of p, last_sent = 0\<rparr>"


text \<open>
  A line that \<open>main\<close> takes as an override: two fields, the first an integer that is an
  index into \<open>actuators_manual\<close>.
\<close>

definition valid_command :: "manual_actuator list \<Rightarrow> string \<Rightarrow> bool" where
  "valid_command actuators_manual line =
     (let parts = split (strip line) in
      length parts = 2 \<and>
      (case py_int (parts ! 0) of
         None \<Rightarrow> False
       | Some idx \<Rightarrow> 0 \<le> idx \<and> idx < int (length actuators_manual)))"

text \<open>A topology used to run the definitions: a sensor, two fans and a relay.\<close>

definition example_topology :: "pin list" where
  "example_topology =
     [\<lparr>mode = ''DS18B20'', name = ''t1'', defaultState = None, pollingInterval = None\<rparr>,
      \<lparr>mode = ''FAN'', name = ''f1'', defaultState = Some 2, pollingInterval = Some 30000\<rparr>,
      \<lparr>mode = ''OUTPUT_DIGITAL'', name = ''relay1'', defaultState = Some 0,
         pollingInterval = Some 500\<rparr>,
      \<lparr>mode = ''FAN'', name = ''f2'', defaultState = None, pollingInterval = None\<rparr>]"

section \<open>Properties\<close>

lemma store_writes_other:
  "tp \<notin> fst ` set ws \<Longrightarrow> store_writes st ws tp = st tp"
  by (induction st ws rule: store_writes.induct) (auto simp: store_set_def)

text \<open>
  C1: a read of a topic after a write of \<open>v\<close> to it returns exactly \<open>v\<close>, whatever the store
  held before (so the last of several writes wins), and stays \<open>v\<close> under later writes to
  other topics; a topic that no write of a run starting from the empty dictionary has
  touched reads as the default \<open>"0"\<close>.
\<close>

theorem store_get_after_set:
  "store_get (store_set st tp v) tp = v
   \<and> store_get (store_set (store_set st tp u) tp v) tp = v
   \<and> (tp \<notin> fst ` set ws \<longrightarrow>
        store_get (store_writes (store_set st tp v) ws) tp = v)
   \<and> (tp \<notin> fst ` set ws \<longrightarrow> store_get (store_writes Map.empty ws) tp = ''0'')"
  by (simp add: store_writes_other store_get_def store_set_def)

theorem store_get_after_set_witness:
  "store_get (store_set Map.empty ''/dev1/fan/f1/set'' ''42'') ''/dev1/fan/f1/set'' = ''42''
   \<and> ''/dev1/fan/f1/set'' \<notin> fst ` set [(''/dev1/fan/f2/set'', ''3'')]
   \<and> store_get (store_writes (store_set Map.empty ''/dev1/fan/f1/set'' ''42'')
        [(''/dev1/fan/f2/set'', ''3'')]) ''/dev1/fan/f1/set'' = ''42''
   \<and> store_get (store_writes Map.empty [(''/dev1/fan/f2/set'', ''3'')])
        ''/dev1/fan/f1/set'' = ''0''"
  using store_get_after_set [of Map.empty "''/dev1/fan/f1/set''" "''42''" "''42''"
      "[(''/dev1/fan/f2/set'', ''3'')]"]
  by simp


subsection \<open>The schedule and the store after start-up\<close>

lemma auto_publisher_init_eq:
  "auto_publisher_init client_id pins (st, acts) =
     (store_writes st
        (map (\<lambda>p. (set_topic client_id p, seed_of p)) (filter actuator_capable pins)),
      acts @ map (schedule_entry client_id) (filter actuator_capable pins))"
proof (induction pins arbitrary: st acts)
  case Nil
  show ?case by simp
next
  case (Cons p ps)
  show ?case
  proof (cases "actuator_capable p")
    case True
    then have m: "mode p = ''FAN'' \<or> mode p = ''OUTPUT_DIGITAL''"
      by (simp add: actuator_capable_def)
    from True m show ?thesis
      by (simp add: Cons.IH Let_def schedule_entry_def set_topic_def pin_topic_def
          interval_of_def seed_of_def)
  next
    case False
    then have m: "mode p \<noteq> ''FAN'' \<and> mode p \<noteq> ''OUTPUT_DIGITAL''"
      by (simp add: actuator_capable_def)
    from False m show ?thesis by (simp add: Cons.IH)
  qed
qed

lemma schedule_eq:
  "snd (auto_publisher_init client_id pins (st, [])) =
     map (schedule_entry client_id) (filter actuator_capable pins)"
  by (simp add: auto_publisher_init_eq)

lemma set_topic_fan:
  "mode p = ''FAN'' \<Longrightarrow>
   set_topic client_id p = ''/'' @ client_id @ ''/fan/'' @ name p @ ''/set''"
  by (simp add: set_topic_def pin_topic_def compose_topic_def get_topic_prefix_def mode_map_def)

lemma set_topic_output_digital:
  "mode p = ''OUTPUT_DIGITAL'' \<Longrightarrow>
   set_topic client_id p = ''/'' @ client_id @ ''/digital_output/'' @ name p @ ''/set''"
  by (simp add: set_topic_def pin_topic_def compose_topic_def get_topic_prefix_def mode_map_def)

lemma set_topic_inj:
  assumes "actuator_capable p" and "actuator_capable q"
    and "set_topic client_id p = set_topic client_id q"
  shows "mode p = mode q \<and> name p = name q"
proof -
  from assms(1) have p: "mode p = ''FAN'' \<or> mode p = ''OUTPUT_DIGITAL''"
    by (simp add: actuator_capable_def)
  from assms(2) have q: "mode q = ''FAN'' \<or> mode q = ''OUTPUT_DIGITAL''"
    by (simp add: actuator_capable_def)
  from p q show ?thesis
  proof (elim disjE)
    assume "mode p = ''FAN''" "mode q = ''FAN''"
    with assms(3) show ?thesis by (simp add: set_topic_fan)
  next
    assume "mode p = ''FAN''" "mode q = ''OUTPUT_DIGITAL''"
    with assms(3) show ?thesis by (simp add: set_topic_fan set_topic_output_digital)
  next
    assume "mode p = ''OUTPUT_DIGITAL''" "mode q = ''FAN''"
    with assms(3) show ?thesis by (simp add: set_topic_fan set_topic_output_digital)
  next
    assume "mode p = ''OUTPUT_DIGITAL''" "mode q = ''OUTPUT_DIGITAL''"
    with assms(3) show ?thesis by (simp add: set_topic_output_digital)
  qed
qed

lemma filter_example_topology:
  "filter actuator_capable example_topology =
     [\<lparr>mode = ''FAN'', name = ''f1'', defaultState = Some 2, pollingInterval = Some 30000\<rparr>,
      \<lparr>mode = ''OUTPUT_DIGITAL'', name = ''relay1'', defaultState = Some 0,
         pollingInterval = Some 500\<rparr>,
      \<lparr>mode = ''FAN'', name = ''f2'', defaultState = None, pollingInterval = None\<rparr>]"
  by (simp add: example_topology_def actuator_capable_def)

subsection \<open>Topic Router\<close>



subsection \<open>Schedule intervals\<close>



text \<open>
  C9: the entry of an actuator-capable pin that declares no \<open>pollingInterval\<close> has the
  interval 29 seconds, the interval it would have had with \<open>pollingInterval = 30000\<close>
  (30 seconds) written out.
\<close>

theorem default_polling_interval:
  assumes "i < length (filter actuator_capable pins)"
    and "pollingInterval (filter actuator_capable pins ! i) = None"
  shows "interval (snd (auto_publisher_init client_id pins (st, [])) ! i) = 29
     \<and> interval (snd (auto_publisher_init client_id pins (st, [])) ! i) =
         interval (snd (auto_publisher_init client_id
           (map (\<lambda>p. if pollingInterval p = None then p\<lparr>pollingInterval := Some 30000\<rparr> else p)
              pins) (st, [])) ! i)"
proof -
  let ?fill = "\<lambda>p. if pollingInterval p = None then p\<lparr>pollingInterval := Some 30000\<rparr> else p"
  let ?caps = "filter actuator_capable pins"
  have cap: "\<And>p. actuator_capable (?fill p) = actuator_capable p"
    by (simp add: actuator_capable_def)
  have iv: "\<And>p. interval_of (?fill p) = interval_of p"
    by (simp add: interval_of_def split: option.splits)
  have f: "filter actuator_capable (map ?fill pins) = map ?fill ?caps"
    by (simp add: filter_map o_def cap)
  from assms have a: "interval (snd (auto_publisher_init client_id pins (st, [])) ! i) = 29"
    by (simp add: schedule_eq schedule_entry_def interval_of_def)
  from assms(1) have
    "interval (snd (auto_publisher_init client_id (map ?fill pins) (st, [])) ! i) =
       interval_of (?fill (?caps ! i))"
    by (simp add: schedule_eq f schedule_entry_def)
  also have "\<dots> = interval_of (?caps ! i)" by (rule iv)
  also from assms(1) have "\<dots> = interval (snd (auto_publisher_init client_id pins (st, [])) ! i)"
    by (simp add: schedule_eq schedule_entry_def)
  finally show ?thesis using a by simp
qed

theorem default_polling_interval_witness:
  "2 < length (filter actuator_capable example_topology)
   \<and> pollingInterval (filter actuator_capable example_topology ! 2) = None
   \<and> interval (snd (auto_publisher_init ''dev1'' example_topology (Map.empty, [])) ! 2) = 29"
proof -
  have a: "2 < length (filter actuator_capable example_topology)"
    and b: "pollingInterval (filter actuator_capable example_topology ! 2) = None"
    by (simp_all add: filter_example_topology)
  from default_polling_interval [OF a b, of "''dev1''" Map.empty] a b
  show ?thesis by simp
qed

subsection \<open>Set-topics\<close>

text \<open>
  C8: when the pins of the topology have pairwise distinct \<open>(mode, name)\<close> pairs, the
  set-topics of the schedule are pairwise distinct, and two different actuator-capable pins
  never have the same set-topic.
\<close>

theorem set_topics_distinct:
  assumes "distinct (map (\<lambda>p. (mode p, name p)) pins)"
  shows "distinct (map topic (snd (auto_publisher_init client_id pins (st, []))))
     \<and> (\<forall>p \<in> set pins. \<forall>q \<in> set pins.
          actuator_capable p \<and> actuator_capable q \<and> p \<noteq> q \<longrightarrow>
          set_topic client_id p \<noteq> set_topic client_id q)"
proof -
  from assms have d: "distinct pins" and inj: "inj_on (\<lambda>p. (mode p, name p)) (set pins)"
    by (simp_all add: distinct_map)
  have sep: "\<forall>p \<in> set pins. \<forall>q \<in> set pins.
      actuator_capable p \<and> actuator_capable q \<and> p \<noteq> q \<longrightarrow>
      set_topic client_id p \<noteq> set_topic client_id q"
  proof (intro ballI impI notI)
    fix p q
    assume p: "p \<in> set pins" and q: "q \<in> set pins"
      and c: "actuator_capable p \<and> actuator_capable q \<and> p \<noteq> q"
      and eq: "set_topic client_id p = set_topic client_id q"
    from c eq have "(mode p, name p) = (mode q, name q)"
      using set_topic_inj [of p q client_id] by simp
    with inj p q have "p = q" by (auto dest: inj_onD)
    with c show False by simp
  qed
  have "inj_on (set_topic client_id) (set (filter actuator_capable pins))"
    using sep by (auto simp: inj_on_def)
  with d have "distinct (map (set_topic client_id) (filter actuator_capable pins))"
    by (simp add: distinct_map)
  moreover have "map topic (snd (auto_publisher_init client_id pins (st, []))) =
      map (set_topic client_id) (filter actuator_capable pins)"
    by (simp add: schedule_eq schedule_entry_def o_def)
  ultimately show ?thesis using sep by simp
qed

theorem set_topics_distinct_witness:
  "distinct (map (\<lambda>p. (mode p, name p)) example_topology)
   \<and> map topic (snd (auto_publisher_init ''dev1'' example_topology (Map.empty, []))) =
       [''/dev1/fan/f1/set'', ''/dev1/digital_output/relay1/set'', ''/dev1/fan/f2/set'']
   \<and> distinct (map topic (snd (auto_publisher_init ''dev1'' example_topology (Map.empty, []))))"
proof -
  have a: "distinct (map (\<lambda>p. (mode p, name p)) example_topology)"
    by (simp add: example_topology_def)
  have b: "map topic (snd (auto_publisher_init ''dev1'' example_topology (Map.empty, []))) =
       [''/dev1/fan/f1/set'', ''/dev1/digital_output/relay1/set'', ''/dev1/fan/f2/set'']"
    by (simp add: schedule_eq filter_example_topology schedule_entry_def set_topic_fan
        set_topic_output_digital)
  from set_topics_distinct [OF a, of "''dev1''" Map.empty] a b show ?thesis by simp
qed

subsection \<open>Scheduling passes\<close>

lemma scheduling_pass_pubs:
  "snd (scheduling_pass now st acts) =
     map (\<lambda>a. (topic a, store_get st (topic a)))
       (filter (\<lambda>a. interval a \<le> now - last_sent a) acts)"
  by (induction acts) (auto simp: Let_def split: prod.splits)

lemma scheduling_pass_acts:
  "fst (scheduling_pass now st acts) =
     map (\<lambda>a. if interval a \<le> now - last_sent a then a\<lparr>last_sent := now\<rparr> else a) acts"
  by (induction acts) (auto simp: Let_def split: prod.splits)

lemma store_writes_distinct:
  "distinct (map fst ws) \<Longrightarrow> (k, v) \<in> set ws \<Longrightarrow> store_writes st ws k = Some v"
proof (induction st ws rule: store_writes.induct)
  case (1 st)
  then show ?case by simp
next
  case (2 st tp u ws)
  show ?case
  proof (cases "(k, v) = (tp, u)")
    case True
    with 2(2) have "k \<notin> fst ` set ws" by auto
    with True show ?thesis by (simp add: store_writes_other store_set_def)
  next
    case False
    with 2 show ?thesis by auto
  qed
qed

lemma set_topics_distinct_pins:
  assumes "distinct (map (\<lambda>p. (mode p, name p)) pins)"
  shows "distinct (map (set_topic client_id) (filter actuator_capable pins))"
proof -
  from assms have d: "distinct pins" and inj: "inj_on (\<lambda>p. (mode p, name p)) (set pins)"
    by (simp_all add: distinct_map)
  have "inj_on (set_topic client_id) (set (filter actuator_capable pins))"
  proof (rule inj_onI)
    fix p q
    assume p: "p \<in> set (filter actuator_capable pins)"
      and q: "q \<in> set (filter actuator_capable pins)"
      and eq: "set_topic client_id p = set_topic client_id q"
    from p q eq have "(mode p, name p) = (mode q, name q)"
      using set_topic_inj [of p q client_id] by simp
    with inj p q show "p = q" by (auto dest: inj_onD)
  qed
  with d show ?thesis by (simp add: distinct_map)
qed

lemma seeded_store:
  assumes "distinct (map (\<lambda>p. (mode p, name p)) pins)"
    and "p \<in> set pins" and "actuator_capable p"
  shows "store_get (fst (auto_publisher_init client_id pins (st0, []))) (set_topic client_id p)
         = seed_of p"
proof -
  let ?ws = "map (\<lambda>p. (set_topic client_id p, seed_of p)) (filter actuator_capable pins)"
  from set_topics_distinct_pins [OF assms(1), of client_id]
  have "distinct (map fst ?ws)" by (simp add: o_def)
  moreover from assms(2,3) have "(set_topic client_id p, seed_of p) \<in> set ?ws" by auto
  ultimately have "store_writes st0 ?ws (set_topic client_id p) = Some (seed_of p)"
    by (rule store_writes_distinct)
  then show ?thesis by (simp add: auto_publisher_init_eq store_get_def)
qed

lemma seed_values: "str_int 0 = ''0''" "str_int 2 = ''2''" "str_int 1 = ''1''"
  by (simp_all add: str_int_def str_nat.simps digit_char_def)

text \<open>
  C10, as amended: every schedule entry is created with \<open>last_sent = 0\<close>, so the first
  scheduling pass, at clock reading \<open>now\<close>, publishes for exactly the entries whose
  interval is at most \<open>now\<close> (all of them when no interval exceeds the clock reading),
  each with the current store value of its topic; with pairwise distinct \<open>(mode, name)\<close>
  pairs that value is the pin's own seeded \<open>defaultState\<close>.
\<close>

theorem first_pass_publishes:
  assumes "auto_publisher_init client_id pins (st0, []) = (st, acts)"
  shows "(\<forall>a \<in> set acts. last_sent a = 0)
     \<and> snd (scheduling_pass now st acts) =
         map (\<lambda>a. (topic a, store_get st (topic a))) (filter (\<lambda>a. interval a \<le> now) acts)
     \<and> ((\<forall>a \<in> set acts. interval a \<le> now) \<longrightarrow>
          snd (scheduling_pass now st acts) = map (\<lambda>a. (topic a, store_get st (topic a))) acts)
     \<and> (distinct (map (\<lambda>p. (mode p, name p)) pins) \<longrightarrow>
          snd (scheduling_pass now st acts) =
            map (\<lambda>p. (set_topic client_id p, seed_of p))
              (filter (\<lambda>p. interval_of p \<le> now) (filter actuator_capable pins)))"
proof -
  from assms have acts: "acts = map (schedule_entry client_id) (filter actuator_capable pins)"
    and st: "st = fst (auto_publisher_init client_id pins (st0, []))"
    by (simp_all add: auto_publisher_init_eq)
  have zero: "\<forall>a \<in> set acts. last_sent a = 0"
    by (auto simp: acts schedule_entry_def)
  then have f: "filter (\<lambda>a. interval a \<le> now - last_sent a) acts =
      filter (\<lambda>a. interval a \<le> now) acts"
    by (intro filter_cong) simp_all
  have pubs: "snd (scheduling_pass now st acts) =
      map (\<lambda>a. (topic a, store_get st (topic a))) (filter (\<lambda>a. interval a \<le> now) acts)"
    by (simp add: scheduling_pass_pubs f)
  have all: "(\<forall>a \<in> set acts. interval a \<le> now) \<longrightarrow>
      snd (scheduling_pass now st acts) = map (\<lambda>a. (topic a, store_get st (topic a))) acts"
    by (simp add: pubs)
  have seeds: "distinct (map (\<lambda>p. (mode p, name p)) pins) \<longrightarrow>
      snd (scheduling_pass now st acts) =
        map (\<lambda>p. (set_topic client_id p, seed_of p))
          (filter (\<lambda>p. interval_of p \<le> now) (filter actuator_capable pins))"
  proof
    assume d: "distinct (map (\<lambda>p. (mode p, name p)) pins)"
    have "snd (scheduling_pass now st acts) =
        map (\<lambda>p. (set_topic client_id p, store_get st (set_topic client_id p)))
          (filter (\<lambda>p. interval_of p \<le> now) (filter actuator_capable pins))"
      unfolding pubs by (simp add: acts filter_map o_def schedule_entry_def)
    also have "\<dots> = map (\<lambda>p. (set_topic client_id p, seed_of p))
          (filter (\<lambda>p. interval_of p \<le> now) (filter actuator_capable pins))"
      by (rule map_cong) (simp_all add: st seeded_store [OF d])
    finally show "snd (scheduling_pass now st acts) =
        map (\<lambda>p. (set_topic client_id p, seed_of p))
          (filter (\<lambda>p. interval_of p \<le> now) (filter actuator_capable pins))" .
  qed
  from zero pubs all seeds show ?thesis by blast
qed

theorem first_pass_publishes_witness:
  "distinct (map (\<lambda>p. (mode p, name p)) example_topology)
   \<and> snd (scheduling_pass 1800000000
        (fst (auto_publisher_init ''dev1'' example_topology (Map.empty, [])))
        (snd (auto_publisher_init ''dev1'' example_topology (Map.empty, [])))) =
      [(''/dev1/fan/f1/set'', ''2''), (''/dev1/digital_output/relay1/set'', ''0''),
       (''/dev1/fan/f2/set'', ''0'')]"
proof -
  have d: "distinct (map (\<lambda>p. (mode p, name p)) example_topology)"
    by (simp add: example_topology_def)
  have i: "auto_publisher_init ''dev1'' example_topology (Map.empty, []) =
      (fst (auto_publisher_init ''dev1'' example_topology (Map.empty, [])),
       snd (auto_publisher_init ''dev1'' example_topology (Map.empty, [])))"
    by simp
  from first_pass_publishes [OF i, of 1800000000] d
  have "snd (scheduling_pass 1800000000
        (fst (auto_publisher_init ''dev1'' example_topology (Map.empty, [])))
        (snd (auto_publisher_init ''dev1'' example_topology (Map.empty, [])))) =
      map (\<lambda>p. (set_topic ''dev1'' p, seed_of p))
        (filter (\<lambda>p. interval_of p \<le> 1800000000) (filter actuator_capable example_topology))"
    by blast
  also have "\<dots> = [(''/dev1/fan/f1/set'', ''2''), (''/dev1/digital_output/relay1/set'', ''0''),
       (''/dev1/fan/f2/set'', ''0'')]"
    by (simp add: filter_example_topology interval_of_def seed_of_def seed_values
        set_topic_fan set_topic_output_digital)
  finally show ?thesis using d by simp
qed

text \<open>
  The claim as stated fails for an entry whose interval exceeds the clock reading: a fan
  with \<open>pollingInterval = 3600000000000\<close> is created with \<open>last_sent = 0\<close> and is not
  published by a first pass at \<open>now = 1800000000\<close>.
\<close>

theorem first_pass_counterexample:
  "map last_sent (snd (auto_publisher_init ''dev1''
       [\<lparr>mode = ''FAN'', name = ''f1'', defaultState = Some 1,
         pollingInterval = Some 3600000000000\<rparr>] (Map.empty, []))) = [0]
   \<and> snd (scheduling_pass 1800000000
        (fst (auto_publisher_init ''dev1''
           [\<lparr>mode = ''FAN'', name = ''f1'', defaultState = Some 1,
             pollingInterval = Some 3600000000000\<rparr>] (Map.empty, [])))
        (snd (auto_publisher_init ''dev1''
           [\<lparr>mode = ''FAN'', name = ''f1'', defaultState = Some 1,
             pollingInterval = Some 3600000000000\<rparr>] (Map.empty, [])))) = []"
  by (simp add: Let_def)

subsection \<open>Operator commands\<close>

lemma lower_q_split: "lower cmd = ''q'' \<Longrightarrow> length (split cmd) \<le> 1"
proof -
  assume "lower cmd = ''q''"
  then obtain c where "cmd = [c]" by (auto simp: lower_def)
  then show ?thesis by (simp add: split_def)
qed

lemma handle_command_valid:
  assumes "split (strip line) = [a, b]" and "py_int a = Some idx"
    and "0 \<le> idx" and "idx < int (length actuators_manual)"
  shows "handle_command actuators_manual pub st line =
     (store_set st (man_topic (actuators_manual ! nat idx)) b,
      StoreWrite (man_topic (actuators_manual ! nat idx)) b
        # Publish (man_topic (actuators_manual ! nat idx)) b
        # (case pub of
             Returns \<Rightarrow> [Print (MsgManualPublish (man_topic (actuators_manual ! nat idx)) b)]
           | RaisesValueError \<Rightarrow> [Print MsgUsage]
           | RaisesOther \<Rightarrow> []),
      (case pub of RaisesOther \<Rightarrow> Crash | _ \<Rightarrow> Continue))"
proof -
  from assms(1) have "lower (strip line) \<noteq> ''q''"
    using lower_q_split [of "strip line"] by auto
  with assms show ?thesis
    by (cases pub) (simp_all add: handle_command_def Let_def)
qed

lemma handle_command_invalid:
  assumes "lower (strip line) \<noteq> ''q''" and "\<not> valid_command actuators_manual line"
  shows "handle_command actuators_manual pub st line =
     (st,
      (if length (split (strip line)) \<noteq> 2 then []
       else if py_int (split (strip line) ! 0) = None then [Print MsgUsage]
       else [Print MsgInvalidIndex]),
      Continue)"
  using assms
  by (auto simp: handle_command_def valid_command_def Let_def split: option.splits)








subsection \<open>The example session\<close>

lemma example_manual:
  "build_actuators_manual ''dev1'' example_topology =
     [\<lparr>man_name = ''f1'', man_topic = ''/dev1/fan/f1/set'', man_range = ''0-4''\<rparr>,
      \<lparr>man_name = ''relay1'', man_topic = ''/dev1/digital_output/relay1/set'',
         man_range = ''0-1''\<rparr>,
      \<lparr>man_name = ''f2'', man_topic = ''/dev1/fan/f2/set'', man_range = ''0-4''\<rparr>]"
  by (simp add: example_topology_def get_topic_prefix_def mode_map_def compose_topic_def)

lemma example_schedule:
  "snd (auto_publisher_init ''dev1'' example_topology (Map.empty, [])) =
     [\<lparr>topic = ''/dev1/fan/f1/set'', interval = 29, last_sent = 0\<rparr>,
      \<lparr>topic = ''/dev1/digital_output/relay1/set'', interval = 1, last_sent = 0\<rparr>,
      \<lparr>topic = ''/dev1/fan/f2/set'', interval = 29, last_sent = 0\<rparr>]"
  by (simp add: schedule_eq filter_example_topology schedule_entry_def interval_of_def
      set_topic_fan set_topic_output_digital)


lemma example_commands:
  "split (strip ''1 42'') = [''1'', ''42'']" "py_int ''1'' = Some 1"
  "split (strip ''0 3'') = [''0'', ''3'']" "py_int ''0'' = Some 0"
  "split (strip ''1 0'') = [''1'', ''0'']"
  "split (strip ''7 1'') = [''7'', ''1'']" "py_int ''7'' = Some 7"
  "split (strip ''x 1'') = [''x'', ''1'']" "py_int ''x'' = None"
  "split (strip ''hello'') = [''hello'']"
  by (simp_all add: split_def strip_def is_space_def py_int_def digits_ok_def is_digit_def
      digits_value_def digit_val_def)



subsection \<open>Manual override\<close>



lemma example_not_quit:
  "lower (strip ''7 1'') \<noteq> ''q''" "lower (strip ''x 1'') \<noteq> ''q''"
  "lower (strip ''hello'') \<noteq> ''q''"
  by (simp_all add: lower_def strip_def is_space_def)

lemma example_invalid:
  "\<not> valid_command (build_actuators_manual ''dev1'' example_topology) ''7 1''"
  "\<not> valid_command (build_actuators_manual ''dev1'' example_topology) ''x 1''"
  "\<not> valid_command (build_actuators_manual ''dev1'' example_topology) ''hello''"
  by (simp_all add: valid_command_def example_commands example_manual)

lemma manual_topics:
  "map man_topic (build_actuators_manual client_id pins) =
     map (set_topic client_id) (filter actuator_capable pins)"
  by (induction pins) (simp_all add: actuator_capable_def set_topic_def pin_topic_def Let_def)

lemma manual_topics_scheduled:
  "map man_topic (build_actuators_manual client_id pins) =
     map topic (snd (auto_publisher_init client_id pins (st0, [])))"
  by (simp add: manual_topics schedule_eq schedule_entry_def o_def)

lemma manual_entry_scheduled:
  assumes "0 \<le> idx" and "idx < int (length (build_actuators_manual client_id pins))"
  shows "nat idx < length (snd (auto_publisher_init client_id pins (st0, [])))
     \<and> topic (snd (auto_publisher_init client_id pins (st0, [])) ! nat idx) =
         man_topic (build_actuators_manual client_id pins ! nat idx)"
proof -
  from assms have i: "nat idx < length (build_actuators_manual client_id pins)" by linarith
  have l: "length (snd (auto_publisher_init client_id pins (st0, []))) =
      length (build_actuators_manual client_id pins)"
    using arg_cong [OF manual_topics_scheduled [of client_id pins st0], of length] by simp
  from i have "map man_topic (build_actuators_manual client_id pins) ! nat idx =
      man_topic (build_actuators_manual client_id pins ! nat idx)" by simp
  moreover from i l have "map topic (snd (auto_publisher_init client_id pins (st0, []))) ! nat idx =
      topic (snd (auto_publisher_init client_id pins (st0, [])) ! nat idx)" by simp
  ultimately show ?thesis using i l manual_topics_scheduled [of client_id pins st0] by simp
qed

text \<open>
  C7: for a valid override command (two fields, the first an index into
  \<open>actuators_manual\<close>) and whatever \<open>client.publish\<close> then does, the store afterwards is
  the old one with the value written to the actuator's topic, the write is the first
  effect and the publish call the second, the topic reads as the value, and every later
  scheduling pass in which an entry of that topic is due publishes the value on it.  The
  schedule built from the same topology has such an entry, at the command's index.
\<close>

theorem manual_write_before_publish:
  assumes "split (strip line) = [a, b]" and "py_int a = Some idx"
    and "0 \<le> idx" and "idx < int (length actuators_manual)"
  shows "fst (handle_command actuators_manual pub st line) =
           store_set st (man_topic (actuators_manual ! nat idx)) b
     \<and> take 2 (fst (snd (handle_command actuators_manual pub st line))) =
           [StoreWrite (man_topic (actuators_manual ! nat idx)) b,
            Publish (man_topic (actuators_manual ! nat idx)) b]
     \<and> store_get (fst (handle_command actuators_manual pub st line))
           (man_topic (actuators_manual ! nat idx)) = b
     \<and> (\<forall>act \<in> set acts.
           topic act = man_topic (actuators_manual ! nat idx) \<and>
           interval act \<le> now - last_sent act \<longrightarrow>
           (man_topic (actuators_manual ! nat idx), b) \<in>
             set (snd (scheduling_pass now (fst (handle_command actuators_manual pub st line))
                    acts)))
     \<and> (actuators_manual = build_actuators_manual client_id pins \<longrightarrow>
           nat idx < length (snd (auto_publisher_init client_id pins (st0, []))) \<and>
           topic (snd (auto_publisher_init client_id pins (st0, [])) ! nat idx) =
             man_topic (actuators_manual ! nat idx))"
proof -
  let ?tp = "man_topic (actuators_manual ! nat idx)"
  let ?st' = "fst (handle_command actuators_manual pub st line)"
  have s: "?st' = store_set st ?tp b"
    by (simp add: handle_command_valid [OF assms])
  have e: "take 2 (fst (snd (handle_command actuators_manual pub st line))) =
      [StoreWrite ?tp b, Publish ?tp b]"
    by (simp add: handle_command_valid [OF assms])
  have g: "store_get ?st' ?tp = b"
    by (simp add: s store_get_def store_set_def)
  have n: "\<forall>act \<in> set acts. topic act = ?tp \<and> interval act \<le> now - last_sent act \<longrightarrow>
      (?tp, b) \<in> set (snd (scheduling_pass now ?st' acts))"
  proof (intro ballI impI)
    fix act
    assume a: "act \<in> set acts"
      and d: "topic act = ?tp \<and> interval act \<le> now - last_sent act"
    from a d g show "(?tp, b) \<in> set (snd (scheduling_pass now ?st' acts))"
      by (force simp: scheduling_pass_pubs)
  qed
  have m: "actuators_manual = build_actuators_manual client_id pins \<longrightarrow>
      nat idx < length (snd (auto_publisher_init client_id pins (st0, []))) \<and>
      topic (snd (auto_publisher_init client_id pins (st0, [])) ! nat idx) = ?tp"
    using manual_entry_scheduled [of idx client_id pins st0] assms(3,4) by blast
  from s e g n m show ?thesis by blast
qed

theorem manual_write_before_publish_witness:
  "split (strip ''1 42'') = [''1'', ''42''] \<and> py_int ''1'' = Some 1
   \<and> 1 < int (length (build_actuators_manual ''dev1'' example_topology))
   \<and> take 2 (fst (snd (handle_command (build_actuators_manual ''dev1'' example_topology)
          RaisesValueError
          (fst (auto_publisher_init ''dev1'' example_topology (Map.empty, []))) ''1 42''))) =
       [StoreWrite ''/dev1/digital_output/relay1/set'' ''42'',
        Publish ''/dev1/digital_output/relay1/set'' ''42'']
   \<and> store_get (fst (handle_command (build_actuators_manual ''dev1'' example_topology)
          RaisesValueError
          (fst (auto_publisher_init ''dev1'' example_topology (Map.empty, []))) ''1 42''))
        ''/dev1/digital_output/relay1/set'' = ''42''
   \<and> (''/dev1/digital_output/relay1/set'', ''42'') \<in>
       set (snd (scheduling_pass 1800000000
         (fst (handle_command (build_actuators_manual ''dev1'' example_topology)
            RaisesValueError
            (fst (auto_publisher_init ''dev1'' example_topology (Map.empty, []))) ''1 42''))
         (snd (auto_publisher_init ''dev1'' example_topology (Map.empty, [])))))"
proof -
  let ?M = "build_actuators_manual ''dev1'' example_topology"
  let ?S = "fst (auto_publisher_init ''dev1'' example_topology (Map.empty, []))"
  let ?A = "snd (auto_publisher_init ''dev1'' example_topology (Map.empty, []))"
  let ?T = "''/dev1/digital_output/relay1/set''"
  let ?e = "\<lparr>topic = ?T, interval = 1, last_sent = 0\<rparr>"
  have a: "split (strip ''1 42'') = [''1'', ''42'']" and b: "py_int ''1'' = Some 1"
    by (simp_all add: example_commands)
  have c: "(0::int) \<le> 1" by simp
  have d: "1 < int (length ?M)" by (simp add: example_manual)
  have t: "man_topic (?M ! nat 1) = ?T" by (simp add: example_manual)
  have m: "?e \<in> set ?A" by (simp add: example_schedule)
  note w = manual_write_before_publish [OF a b c d, of RaisesValueError ?S ?A 1800000000]
  from w have e: "take 2 (fst (snd (handle_command ?M RaisesValueError ?S ''1 42''))) =
      [StoreWrite ?T ''42'', Publish ?T ''42'']"
    unfolding t by blast
  from w have g: "store_get (fst (handle_command ?M RaisesValueError ?S ''1 42'')) ?T = ''42''"
    unfolding t by blast
  from w have "\<forall>act \<in> set ?A. topic act = ?T \<and> interval act \<le> 1800000000 - last_sent act \<longrightarrow>
      (?T, ''42'') \<in> set (snd (scheduling_pass 1800000000
         (fst (handle_command ?M RaisesValueError ?S ''1 42'')) ?A))"
    unfolding t by blast
  from bspec [OF this m]
  have n: "(?T, ''42'') \<in> set (snd (scheduling_pass 1800000000
         (fst (handle_command ?M RaisesValueError ?S ''1 42'')) ?A))"
    by simp
  from a b d e g n show ?thesis by blast
qed

subsection \<open>Rejected commands\<close>

text \<open>
  C5, as amended: a line that is neither the quit command nor a valid override leaves the
  store unchanged, publishes nothing, and the command loop and the run of the session go
  on.  It is reported to the operator when it has two fields (a usage message when the
  first is not an integer, an invalid-index message when it is out of range), and is
  dropped without any message when it does not have exactly two fields.
\<close>

theorem invalid_command_discarded:
  assumes "lower (strip line) \<noteq> ''q''" and "\<not> valid_command actuators_manual line"
  shows "handle_command actuators_manual pub st line =
     (st,
      (if length (split (strip line)) \<noteq> 2 then []
       else if py_int (split (strip line) ! 0) = None then [Print MsgUsage]
       else [Print MsgInvalidIndex]),
      Continue)
   \<and> run actuators_manual (st, acts) (Line line pub # ins) =
      (if length (split (strip line)) \<noteq> 2 then []
       else if py_int (split (strip line) ! 0) = None then [Print MsgUsage]
       else [Print MsgInvalidIndex]) @ run actuators_manual (st, acts) ins"
proof -
  note h = handle_command_invalid [OF assms, of pub st]
  have "run actuators_manual (st, acts) (Line line pub # ins) =
      (if length (split (strip line)) \<noteq> 2 then []
       else if py_int (split (strip line) ! 0) = None then [Print MsgUsage]
       else [Print MsgInvalidIndex]) @ run actuators_manual (st, acts) ins"
    unfolding run.simps h by simp
  with h show ?thesis by blast
qed

theorem invalid_command_discarded_witness:
  "lower (strip ''7 1'') \<noteq> ''q''
   \<and> \<not> valid_command (build_actuators_manual ''dev1'' example_topology) ''7 1''
   \<and> handle_command (build_actuators_manual ''dev1'' example_topology) Returns
        (fst (auto_publisher_init ''dev1'' example_topology (Map.empty, []))) ''7 1'' =
      (fst (auto_publisher_init ''dev1'' example_topology (Map.empty, [])),
       [Print MsgInvalidIndex], Continue)
   \<and> lower (strip ''x 1'') \<noteq> ''q''
   \<and> \<not> valid_command (build_actuators_manual ''dev1'' example_topology) ''x 1''
   \<and> handle_command (build_actuators_manual ''dev1'' example_topology) Returns
        (fst (auto_publisher_init ''dev1'' example_topology (Map.empty, []))) ''x 1'' =
      (fst (auto_publisher_init ''dev1'' example_topology (Map.empty, [])),
       [Print MsgUsage], Continue)"
proof -
  let ?M = "build_actuators_manual ''dev1'' example_topology"
  let ?S = "fst (auto_publisher_init ''dev1'' example_topology (Map.empty, []))"
  from invalid_command_discarded [OF example_not_quit(1) example_invalid(1), of Returns ?S "[]" "[]"]
  have a: "handle_command ?M Returns ?S ''7 1'' = (?S, [Print MsgInvalidIndex], Continue)"
    by (simp add: example_commands)
  from invalid_command_discarded [OF example_not_quit(2) example_invalid(2), of Returns ?S "[]" "[]"]
  have b: "handle_command ?M Returns ?S ''x 1'' = (?S, [Print MsgUsage], Continue)"
    by (simp add: example_commands)
  from a b example_not_quit example_invalid show ?thesis by blast
qed

text \<open>
  The claim as stated fails for a line without exactly two fields: \<open>hello\<close> is neither
  quit nor a valid override, and the loop goes on without printing anything.
\<close>

theorem malformed_command_not_reported:
  "lower (strip ''hello'') \<noteq> ''q''
   \<and> \<not> valid_command (build_actuators_manual ''dev1'' example_topology) ''hello''
   \<and> snd (handle_command (build_actuators_manual ''dev1'' example_topology) Returns
        (fst (auto_publisher_init ''dev1'' example_topology (Map.empty, []))) ''hello'') =
      ([], Continue)"
  by (simp add: example_not_quit example_invalid handle_command_invalid example_commands)

subsection \<open>Subscriptions\<close>

text \<open>A pin of any mode but the four that \<open>on_connect\<close> tests for is passed over.\<close>

lemma subscribe_pins_other:
  "mode p \<notin> set [''DS18B20'', ''THERMOCOUPLE'', ''FAN'', ''OUTPUT_DIGITAL''] \<Longrightarrow>
   subscribe_pins client_id (p # ps) = subscribe_pins client_id ps"
  by simp

text \<open>
  C6: \<open>on_connect\<close> on a topology holding one \<open>DHT22_SENSOR\<close> pin, connection accepted:
  the only effect is the connection message, the sensor's topic is not subscribed.
\<close>

theorem on_connect_skips_dht22:
  "on_connect ''dev1''
     [\<lparr>mode = ''DHT22_SENSOR'', name = ''dht1'', defaultState = None,
       pollingInterval = Some 2000\<rparr>] 0 = [Print MsgConnected]"
  by (simp add: on_connect_def)

end
